theory Spec2Isabelle
  imports Main "HOL-Library.Char_ord" "HOL-Library.List_Lexorder"
begin

section \<open>The transport node: data\<close>

text \<open>
  The development follows \<^verbatim>\<open>include/ignition/transport/Node.hh\<close>: the four operations the
  header defines inline (\<^verbatim>\<open>Subscribe\<close>, the service \<^verbatim>\<open>Advertise\<close>, and the two
  \<^verbatim>\<open>Request\<close> overloads). A node is the object \<^verbatim>\<open>this\<close>; the object behind
  \<^verbatim>\<open>dataPtr\<close> is shared by all the nodes of one process. Every operation takes both and
  returns what it has changed. The operations hold the process mutex from entry to exit,
  so each is one atomic step; the only point where the mutex is released is the wait of
  the blocking \<^verbatim>\<open>Request\<close>, whose outcome is an input of the model.

  Messages (\<^verbatim>\<open>ProtoMsg\<close> and its subclasses \<^verbatim>\<open>T\<close>, \<^verbatim>\<open>T1\<close>, \<^verbatim>\<open>T2\<close>) are the type
  variable \<open>'m\<close>. A user callback that returns \<^verbatim>\<open>void\<close> and only acts on the outside world
  is a name of type \<open>'c\<close>; calling it is an event of the trace.
\<close>

datatype Scope = Scope_Process | Scope_Host | Scope_All

datatype AdvertiseType = Msg | Srv

subsection \<open>\<^verbatim>\<open>std::map\<close> with string keys\<close>

text \<open>
  A \<^verbatim>\<open>std::map<std::string, V>\<close> iterates in the order of its keys, and
  \<^verbatim>\<open>begin()\<close> is the entry with the least key. \<^verbatim>\<open>std::string\<close> compares bytewise and
  a proper prefix is smaller, which is the order of \<open>string\<close> here. The map is the list of
  its entries in key order.
\<close>

type_synonym 'v std_map = "(string \<times> 'v) list"

text \<open>\<^verbatim>\<open>m[k] = v\<close>: insert, or replace the value of an existing key.\<close>

fun std_map_assign :: "string \<Rightarrow> 'v \<Rightarrow> 'v std_map \<Rightarrow> 'v std_map" where
  "std_map_assign k v [] = [(k, v)]"
| "std_map_assign k v ((k', v') # m) =
     (if k < k' then (k, v) # (k', v') # m
      else if k = k' then (k, v) # m
      else (k', v') # std_map_assign k v m)"

subsection \<open>Handlers\<close>

text \<open>
  \<^verbatim>\<open>SubscriptionHandler<T>(nUuidStr)\<close> followed by \<^verbatim>\<open>SetCallback(_cb)\<close>. The
  handler has an id of its own, \<open>sub_hUuid\<close>, which it is given when it is constructed.
\<close>

record 'c SubscriptionHandler =
  sub_hUuid :: string
  sub_nUuid :: string
  sub_cb :: 'c

text \<open>
  \<^verbatim>\<open>RepHandler<T1, T2>(nUuidStr)\<close> followed by \<^verbatim>\<open>SetCallback(_cb)\<close>. The callback has the
  type \<^verbatim>\<open>void(*)(const std::string &, const T1 &, T2 &, bool &)\<close>: it reads the topic and
  the request and may write the response and the result, which it receives by reference.
  So it is a function from the topic, the request and the current contents of the two
  references to their new contents.
\<close>

record 'm RepHandler =
  rep_nUuid :: string
  rep_cb :: "string \<Rightarrow> 'm \<Rightarrow> 'm \<Rightarrow> bool \<Rightarrow> 'm \<times> bool"

text \<open>
  \<^verbatim>\<open>ReqHandler<T1, T2>(nUuidStr)\<close>. \<^verbatim>\<open>Node.hh\<close> writes the request
  (\<^verbatim>\<open>SetMessage\<close>) and, in the non-blocking call, the callback (\<^verbatim>\<open>SetCallback\<close>), and
  reads the members \<^verbatim>\<open>repAvailable\<close>, \<^verbatim>\<open>result\<close> and \<^verbatim>\<open>rep\<close> (the response as
  serialized bytes). \<open>req_hUuid\<close> is the id of the request, which the handler is given
  when it is constructed.
\<close>

record ('m, 'c) ReqHandler =
  req_hUuid :: string
  req_nUuid :: string
  reqMsg :: "'m option"
  req_cb :: "'c option"
  repAvailable :: bool
  result :: bool
  rep :: string

text \<open>
  Modelled from the spec: the constructor of \<^verbatim>\<open>ReqHandler\<close> (\<^verbatim>\<open>ReqHandler.hh\<close> is not
  among the sources). A pending request starts with an empty completion slot: no response
  available, no callback, no request message yet.
\<close>

definition new_ReqHandler :: "string \<Rightarrow> string \<Rightarrow> ('m, 'c) ReqHandler" where
  "new_ReqHandler nUuid hUuid =
     \<lparr>req_hUuid = hUuid, req_nUuid = nUuid, reqMsg = None, req_cb = None,
      repAvailable = False, result = False, rep = []\<rparr>"

subsection \<open>What a call does to the outside\<close>

text \<open>
  The calls that leave the node are recorded in order:
  \<^item> \<open>Discover is_srv topic\<close>: \<^verbatim>\<open>discovery->Discover(is_srv, topic)\<close>;
  \<^item> \<open>DiscoveryAdvertise ty topic addr ctrl nUuid scope\<close>: \<^verbatim>\<open>discovery->Advertise(...)\<close>;
  \<^item> \<open>SendRequest topic addr id req\<close>: the frame of request \<open>id\<close> written to the responder
    at \<open>addr\<close>;
  \<^item> \<open>ReplierCalled nUuid topic req\<close>: the callback of the replier of node \<open>nUuid\<close> has run;
  \<^item> \<open>RequestCallback cb topic rep res\<close>: the call \<^verbatim>\<open>_cb(_topic, rep, result)\<close>;
  \<^item> \<open>WaitUntil id timeout\<close>: the caller has waited on the condition of request \<open>id\<close>.
\<close>

datatype ('m, 'c) event =
    Discover bool string
  | DiscoveryAdvertise AdvertiseType string string string string Scope
  | SendRequest string string string "'m option"
  | ReplierCalled string string 'm
  | RequestCallback 'c string 'm bool
  | WaitUntil string nat

text \<open>The events that reach the network or the discovery service.\<close>

fun network_event :: "('m, 'c) event \<Rightarrow> bool" where
  "network_event (Discover _ _) = True"
| "network_event (DiscoveryAdvertise _ _ _ _ _ _) = True"
| "network_event (SendRequest _ _ _ _) = True"
| "network_event (ReplierCalled _ _ _) = False"
| "network_event (RequestCallback _ _ _ _) = False"
| "network_event (WaitUntil _ _) = False"

subsection \<open>The node and the process\<close>

text \<open>The private members of \<^verbatim>\<open>Node\<close>.\<close>

record Node =
  nUuidStr :: string
  topicsSubscribed :: "string list"
  topicsAdvertised :: "string list"
  srvsAdvertised :: "string list"

text \<open>
  Modelled from the spec: the responder record of the discovery service
  (\<^verbatim>\<open>Discovery.hh\<close> is not among the sources), with the fields the selection of a
  responder reads.
\<close>

record Responder =
  reply_address :: string
  process_uuid :: string
  node_uuid :: string

text \<open>
  The object behind \<^verbatim>\<open>dataPtr\<close>. The three registries are maps from the topic to a
  \<^verbatim>\<open>std::map\<close> of handlers; \<open>discovery\<close> is the table of known responders of the
  discovery service; \<open>trace\<close> is what the process has done to the outside so far.
\<close>

record ('m, 'c) NodePrivate =
  localSubscriptions :: "string \<rightharpoonup> 'c SubscriptionHandler std_map"
  repliers :: "string \<rightharpoonup> 'm RepHandler std_map"
  requests :: "string \<rightharpoonup> ('m, 'c) ReqHandler std_map"
  discovery :: "string \<Rightarrow> Responder list"
  myReplierAddress :: string
  trace :: "('m, 'c) event list"

section \<open>The registries and the discovery service\<close>

text \<open>
  Modelled from the spec: \<^verbatim>\<open>SubscriptionStorage::AddSubscriptionHandler\<close>
  (\<^verbatim>\<open>SubscriptionStorage.hh\<close> is not among the sources). The registry is
  \<open>topic -> (handler_id -> SubscriptionHandler)\<close>; several handlers of one node may exist
  for a topic, each under its own handler id.
\<close>

definition AddSubscriptionHandler ::
  "string \<Rightarrow> string \<Rightarrow> 'c SubscriptionHandler \<Rightarrow>
   (string \<rightharpoonup> 'c SubscriptionHandler std_map) \<Rightarrow> (string \<rightharpoonup> 'c SubscriptionHandler std_map)" where
  "AddSubscriptionHandler topic nUuid h reg =
     reg(topic \<mapsto>
       std_map_assign (sub_hUuid h) h (case reg topic of None \<Rightarrow> [] | Some m \<Rightarrow> m))"

text \<open>
  Modelled from the spec: \<^verbatim>\<open>RepStorage::AddRepHandler\<close> and
  \<^verbatim>\<open>RepStorage::GetRepHandlers\<close> (\<^verbatim>\<open>RepStorage.hh\<close> is not among the sources). The
  registry is \<open>topic -> (node_uuid -> ReplierHandler)\<close>. \<^verbatim>\<open>GetRepHandlers\<close> copies the
  bucket of the topic into the caller's map, which stays empty when there is none.
\<close>

definition AddRepHandler ::
  "string \<Rightarrow> string \<Rightarrow> 'm RepHandler \<Rightarrow>
   (string \<rightharpoonup> 'm RepHandler std_map) \<Rightarrow> (string \<rightharpoonup> 'm RepHandler std_map)" where
  "AddRepHandler topic nUuid h reg =
     reg(topic \<mapsto> std_map_assign nUuid h (case reg topic of None \<Rightarrow> [] | Some m \<Rightarrow> m))"

definition GetRepHandlers ::
  "string \<Rightarrow> (string \<rightharpoonup> 'm RepHandler std_map) \<Rightarrow> 'm RepHandler std_map" where
  "GetRepHandlers topic reg = (case reg topic of None \<Rightarrow> [] | Some m \<Rightarrow> m)"

text \<open>
  Modelled from the spec: \<^verbatim>\<open>ReqStorage::AddReqHandler\<close> and
  \<^verbatim>\<open>ReqStorage::GetReqHandlers\<close> (\<^verbatim>\<open>ReqStorage.hh\<close> is not among the sources). The
  registry is \<open>topic -> (request_id -> PendingRequest)\<close>.
\<close>

definition AddReqHandler ::
  "string \<Rightarrow> string \<Rightarrow> ('m, 'c) ReqHandler \<Rightarrow>
   (string \<rightharpoonup> ('m, 'c) ReqHandler std_map) \<Rightarrow> (string \<rightharpoonup> ('m, 'c) ReqHandler std_map)" where
  "AddReqHandler topic nUuid h reg =
     reg(topic \<mapsto>
       std_map_assign (req_hUuid h) h (case reg topic of None \<Rightarrow> [] | Some m \<Rightarrow> m))"

definition GetReqHandlers ::
  "string \<Rightarrow> (string \<rightharpoonup> ('m, 'c) ReqHandler std_map) \<Rightarrow> ('m, 'c) ReqHandler std_map" where
  "GetReqHandlers topic reg = (case reg topic of None \<Rightarrow> [] | Some m \<Rightarrow> m)"

text \<open>
  Modelled from the spec: \<^verbatim>\<open>RepHandler::RunLocalCallback\<close> (\<^verbatim>\<open>RepHandler.hh\<close> is not
  among the sources): the replier is invoked synchronously, on the caller's own response
  and result.
\<close>

definition RunLocalCallback ::
  "'m RepHandler \<Rightarrow> string \<Rightarrow> 'm \<Rightarrow> 'm \<Rightarrow> bool \<Rightarrow> 'm \<times> bool" where
  "RunLocalCallback h topic req rep_ref result_ref = rep_cb h topic req rep_ref result_ref"

text \<open>
  Modelled from the spec: \<^verbatim>\<open>Discovery::GetTopicAddresses\<close> (\<^verbatim>\<open>Discovery.hh\<close> is not
  among the sources): whether the table of the discovery service knows a responder of
  the topic.
\<close>

definition GetTopicAddresses :: "string \<Rightarrow> (string \<Rightarrow> Responder list) \<Rightarrow> bool" where
  "GetTopicAddresses topic table = (table topic \<noteq> [])"

text \<open>
  Modelled from the spec: the selection of a responder among the known ones (made in
  \<^verbatim>\<open>NodePrivate\<close>, which is not among the sources): the lowest
  \<open>(process_uuid, node_uuid)\<close> in byte-lexicographic order.
\<close>

definition identity_le :: "Responder \<Rightarrow> Responder \<Rightarrow> bool" where
  "identity_le a b =
     (process_uuid a < process_uuid b \<or>
      process_uuid a = process_uuid b \<and> node_uuid a \<le> node_uuid b)"

fun lowest_responder :: "Responder \<Rightarrow> Responder list \<Rightarrow> Responder" where
  "lowest_responder best [] = best"
| "lowest_responder best (r # rs) =
     lowest_responder (if identity_le best r then best else r) rs"

definition select_responder :: "Responder list \<Rightarrow> Responder option" where
  "select_responder rs = (case rs of [] \<Rightarrow> None | r # rest \<Rightarrow> Some (lowest_responder r rest))"

text \<open>
  Modelled from the spec: \<^verbatim>\<open>NodePrivate::SendPendingRemoteReqs\<close> (\<^verbatim>\<open>NodePrivate\<close> is
  not among the sources): the request frames of the pending requests of the topic are
  sent to the one selected responder; the other responders are not contacted.
\<close>

definition SendPendingRemoteReqs :: "string \<Rightarrow> ('m, 'c) NodePrivate \<Rightarrow> ('m, 'c) NodePrivate" where
  "SendPendingRemoteReqs topic p =
     (case select_responder (discovery p topic) of
        None \<Rightarrow> p
      | Some r \<Rightarrow>
          p\<lparr>trace := trace p @
               map (\<lambda>(hUuid, h). SendRequest topic (reply_address r) hUuid (reqMsg h))
                   (GetReqHandlers topic (requests p))\<rparr>)"

section \<open>The operations of \<^verbatim>\<open>Node.hh\<close>\<close>

text \<open>
  \<^verbatim>\<open>Node::Subscribe\<close> (both overloads have the same body). \<open>hUuid\<close> is the id of the
  handler that \<^verbatim>\<open>new SubscriptionHandler<T>(nUuidStr)\<close> creates.
\<close>

definition Subscribe ::
  "string \<Rightarrow> 'c \<Rightarrow> string \<Rightarrow> Node \<Rightarrow> ('m, 'c) NodePrivate \<Rightarrow> Node \<times> ('m, 'c) NodePrivate" where
  "Subscribe topic cb hUuid n p =
     (let subscrHandler = \<lparr>sub_hUuid = hUuid, sub_nUuid = nUuidStr n, sub_cb = cb\<rparr>;
          p1 = p\<lparr>localSubscriptions :=
                   AddSubscriptionHandler topic (nUuidStr n) subscrHandler
                     (localSubscriptions p)\<rparr>;
          n1 = (if topic \<notin> set (topicsSubscribed n)
                then n\<lparr>topicsSubscribed := topicsSubscribed n @ [topic]\<rparr> else n);
          p2 = p1\<lparr>trace := trace p1 @ [Discover False topic]\<rparr>
      in (n1, p2))"

text \<open>\<^verbatim>\<open>Node::Advertise\<close>, the service overload.\<close>

definition Advertise_srv ::
  "string \<Rightarrow> (string \<Rightarrow> 'm \<Rightarrow> 'm \<Rightarrow> bool \<Rightarrow> 'm \<times> bool) \<Rightarrow> Scope \<Rightarrow>
   Node \<Rightarrow> ('m, 'c) NodePrivate \<Rightarrow> Node \<times> ('m, 'c) NodePrivate" where
  "Advertise_srv topic cb scope n p =
     (let n1 = (if topic \<notin> set (srvsAdvertised n)
                then n\<lparr>srvsAdvertised := srvsAdvertised n @ [topic]\<rparr> else n);
          repHandler = \<lparr>rep_nUuid = nUuidStr n, rep_cb = cb\<rparr>;
          p1 = p\<lparr>repliers := AddRepHandler topic (nUuidStr n) repHandler (repliers p)\<rparr>;
          p2 = p1\<lparr>trace := trace p1 @
                  [DiscoveryAdvertise Srv topic (myReplierAddress p1) [] (nUuidStr n) scope]\<rparr>
      in (n1, p2))"

text \<open>
  \<^verbatim>\<open>Node::Request\<close>, the non-blocking overload. \<open>hUuid\<close> is the id of the request handler
  the call creates; \<open>rep_new\<close> is a default-constructed \<^verbatim>\<open>T2\<close> and \<open>result_new\<close> the contents of
  the uninitialised local \<^verbatim>\<open>bool result\<close>.
\<close>

definition Request ::
  "string \<Rightarrow> 'm \<Rightarrow> 'c \<Rightarrow> string \<Rightarrow> 'm \<Rightarrow> bool \<Rightarrow>
   Node \<Rightarrow> ('m, 'c) NodePrivate \<Rightarrow> ('m, 'c) NodePrivate" where
  "Request topic req cb hUuid rep_new result_new n p =
     (case GetRepHandlers topic (repliers p) of
        (u, repHandler) # _ \<Rightarrow>
          (let (rep1, result1) = RunLocalCallback repHandler topic req rep_new result_new
           in p\<lparr>trace := trace p @
                  [ReplierCalled u topic req, RequestCallback cb topic rep1 result1]\<rparr>)
      | [] \<Rightarrow>
          (let reqHandler =
                 (new_ReqHandler (nUuidStr n) hUuid)\<lparr>reqMsg := Some req, req_cb := Some cb\<rparr>;
               p1 = p\<lparr>requests := AddReqHandler topic (nUuidStr n) reqHandler (requests p)\<rparr>
           in if GetTopicAddresses topic (discovery p1)
              then SendPendingRemoteReqs topic p1
              else p1\<lparr>trace := trace p1 @ [Discover True topic]\<rparr>))"

text \<open>
  \<^verbatim>\<open>Node::Request\<close>, the blocking overload. \<open>rep_in\<close> and \<open>result_in\<close> are the contents of
  the caller's \<^verbatim>\<open>_rep\<close> and \<^verbatim>\<open>_result\<close> at the call; the value returned is the
  \<^verbatim>\<open>bool\<close> of the call with their contents at its end, and the process. During
  \<^verbatim>\<open>wait_until\<close> the mutex is released and the receiving thread may fill the completion
  slot of the handler (its members \<^verbatim>\<open>repAvailable\<close>, \<^verbatim>\<open>result\<close> and \<^verbatim>\<open>rep\<close>);
  \<open>woken\<close> gives the slot as the caller finds it when the wait returns, and
  \<^verbatim>\<open>wait_until\<close> with a predicate returns the value of the predicate at that moment.
  The registry holds the very handler the caller waits on (one object behind a
  \<^verbatim>\<open>shared_ptr\<close>), so the entry stored under the id of the request has the same slot
  when the call returns. \<open>ParseFromString\<close> is the parser of \<^verbatim>\<open>T2\<close>.
\<close>

definition Request_blocking ::
  "string \<Rightarrow> 'm \<Rightarrow> nat \<Rightarrow> 'm \<Rightarrow> bool \<Rightarrow> string \<Rightarrow>
   (('m, 'c) ReqHandler \<Rightarrow> ('m, 'c) ReqHandler) \<Rightarrow> (string \<Rightarrow> 'm \<Rightarrow> 'm) \<Rightarrow>
   Node \<Rightarrow> ('m, 'c) NodePrivate \<Rightarrow> bool \<times> 'm \<times> bool \<times> ('m, 'c) NodePrivate" where
  "Request_blocking topic req timeout rep_in result_in hUuid woken ParseFromString n p =
     (case GetRepHandlers topic (repliers p) of
        (u, repHandler) # _ \<Rightarrow>
          (let (rep1, result1) = RunLocalCallback repHandler topic req rep_in result_in
           in (True, rep1, result1, p\<lparr>trace := trace p @ [ReplierCalled u topic req]\<rparr>))
      | [] \<Rightarrow>
          (let reqHandler = (new_ReqHandler (nUuidStr n) hUuid)\<lparr>reqMsg := Some req\<rparr>;
               p1 = p\<lparr>requests := AddReqHandler topic (nUuidStr n) reqHandler (requests p)\<rparr>;
               p2 = (if GetTopicAddresses topic (discovery p1)
                     then SendPendingRemoteReqs topic p1
                     else p1\<lparr>trace := trace p1 @ [Discover True topic]\<rparr>);
               w = woken reqHandler;
               h = reqHandler\<lparr>repAvailable := repAvailable w, result := result w, rep := rep w\<rparr>;
               p3 = p2\<lparr>requests := AddReqHandler topic (nUuidStr n) h (requests p2),
                       trace := trace p2 @ [WaitUntil hUuid timeout]\<rparr>;
               executed = repAvailable h;
               rep_out = (if executed \<and> result h then ParseFromString (rep h) rep_in else rep_in);
               result_out = (if executed then result h else result_in)
           in (executed, rep_out, result_out, p3)))"

section \<open>Nodes, processes and sequences of calls\<close>

text \<open>
  A node as its constructor leaves the members declared in \<^verbatim>\<open>Node.hh\<close>: the three vectors
  are default-constructed, hence empty.
\<close>

definition new_Node :: "string \<Rightarrow> Node" where
  "new_Node uuid =
     \<lparr>nUuidStr = uuid, topicsSubscribed = [], topicsAdvertised = [], srvsAdvertised = []\<rparr>"

text \<open>
  Modelled from the spec: the process-wide object as it is initialised on the creation of
  the first node (\<^verbatim>\<open>NodePrivate\<close> is not among the sources): empty registries, no known
  responder, nothing done yet.
\<close>

definition new_NodePrivate :: "string \<Rightarrow> ('m, 'c) NodePrivate" where
  "new_NodePrivate addr =
     \<lparr>localSubscriptions = Map.empty, repliers = Map.empty, requests = Map.empty,
      discovery = (\<lambda>_. []), myReplierAddress = addr, trace = []\<rparr>"

text \<open>One call of a node's public interface, with its arguments.\<close>

datatype ('m, 'c) call =
    Call_Subscribe string 'c string
  | Call_Advertise_srv string "string \<Rightarrow> 'm \<Rightarrow> 'm \<Rightarrow> bool \<Rightarrow> 'm \<times> bool" Scope
  | Call_Request string 'm 'c string 'm bool
  | Call_Request_blocking string 'm nat 'm bool string
      "('m, 'c) ReqHandler \<Rightarrow> ('m, 'c) ReqHandler" "string \<Rightarrow> 'm \<Rightarrow> 'm"

fun do_call ::
  "('m, 'c) call \<Rightarrow> Node \<times> ('m, 'c) NodePrivate \<Rightarrow> Node \<times> ('m, 'c) NodePrivate" where
  "do_call (Call_Subscribe topic cb hUuid) (n, p) = Subscribe topic cb hUuid n p"
| "do_call (Call_Advertise_srv topic cb scope) (n, p) = Advertise_srv topic cb scope n p"
| "do_call (Call_Request topic req cb hUuid rep_new result_new) (n, p) =
     (n, Request topic req cb hUuid rep_new result_new n p)"
| "do_call (Call_Request_blocking topic req timeout rep_in result_in hUuid woken parse) (n, p) =
     (n, snd (snd (snd
        (Request_blocking topic req timeout rep_in result_in hUuid woken parse n p))))"

fun do_calls ::
  "('m, 'c) call list \<Rightarrow> Node \<times> ('m, 'c) NodePrivate \<Rightarrow> Node \<times> ('m, 'c) NodePrivate" where
  "do_calls [] s = s"
| "do_calls (c # cs) s = do_calls cs (do_call c s)"

text \<open>Each topic occurs at most once in each of the two lists.\<close>

definition no_duplicates :: "Node \<Rightarrow> bool" where
  "no_duplicates n = (distinct (topicsSubscribed n) \<and> distinct (srvsAdvertised n))"

text \<open>What a call has added to the trace of the process.\<close>

definition new_events ::
  "('m, 'c) NodePrivate \<Rightarrow> ('m, 'c) NodePrivate \<Rightarrow> ('m, 'c) event list" where
  "new_events p p' = drop (length (trace p)) (trace p')"


subsection \<open>Callbacks and receiving threads of the examples\<close>

text \<open>
  The service of the tests (\<^verbatim>\<open>srvEcho\<close> in \<^verbatim>\<open>ign_TEST.cc\<close>), with the signature
  \<^verbatim>\<open>Node.hh\<close> asks for: it copies the request into the response and reports success.
  Messages are numbers.
\<close>

definition echo :: "string \<Rightarrow> nat \<Rightarrow> nat \<Rightarrow> bool \<Rightarrow> nat \<times> bool" where
  "echo topic req rep_ref result_ref = (req, True)"

text \<open>
  Two receiving threads: one that delivers nothing to the handler before the wait ends,
  and one that fills the completion slot with a result flag and the bytes of a response.
\<close>

definition no_response :: "(nat, nat) ReqHandler \<Rightarrow> (nat, nat) ReqHandler" where
  "no_response h = h"

definition response :: "bool \<Rightarrow> string \<Rightarrow> (nat, nat) ReqHandler \<Rightarrow> (nat, nat) ReqHandler" where
  "response res bytes h = h\<lparr>repAvailable := True, result := res, rep := bytes\<rparr>"

text \<open>A replier that writes a response and reports failure.\<close>

definition refuse :: "string \<Rightarrow> nat \<Rightarrow> nat \<Rightarrow> bool \<Rightarrow> nat \<times> bool" where
  "refuse topic req rep_ref result_ref = (req + 1, False)"

text \<open>A parser for messages that are numbers: the message is the number of bytes read.\<close>

definition parse_length :: "string \<Rightarrow> nat \<Rightarrow> nat" where
  "parse_length bytes m = length bytes"

text \<open>
  Modelled from the spec: the discovery service on receiving advertisements of a service
  from other processes (\<^verbatim>\<open>Discovery\<close> is not among the sources). It inserts the
  responders \<open>rs\<close> in its table, whether or not the process has asked for the topic.
\<close>

definition learn_responders ::
  "string \<Rightarrow> Responder list \<Rightarrow> ('m, 'c) NodePrivate \<Rightarrow> ('m, 'c) NodePrivate" where
  "learn_responders topic rs p = p\<lparr>discovery := (discovery p)(topic := rs)\<rparr>"

definition responder_a :: Responder where
  "responder_a = \<lparr>reply_address = ''tcp://a:2'', process_uuid = ''p1'', node_uuid = ''n3''\<rparr>"

definition responder_b :: Responder where
  "responder_b = \<lparr>reply_address = ''tcp://b:1'', process_uuid = ''p2'', node_uuid = ''n1''\<rparr>"

subsection \<open>Notions used to state the properties\<close>

text \<open>The event is a request frame of the topic, written to the given address.\<close>

fun sent_to :: "string \<Rightarrow> string \<Rightarrow> ('m, 'c) event \<Rightarrow> bool" where
  "sent_to topic addr (SendRequest t a _ _) = (t = topic \<and> a = addr)"
| "sent_to topic addr _ = False"

text \<open>
  The grammar of topic keys, in the words of the specification (\<^verbatim>\<open>Node.hh\<close> has no
  counterpart): a slash, then a letter or an underscore, then letters, digits, underscores
  and slashes; no double slash and no trailing slash. The empty string is not a topic key.
\<close>

definition topic_start_char :: "char \<Rightarrow> bool" where
  "topic_start_char c =
     (c \<in> set ''ABCDEFGHIJKLMNOPQRSTUVWXYZabcdefghijklmnopqrstuvwxyz_'')"

definition topic_char :: "char \<Rightarrow> bool" where
  "topic_char c = (topic_start_char c \<or> c \<in> set ''0123456789/'')"

fun double_slash :: "string \<Rightarrow> bool" where
  "double_slash (a # b # cs) = (a = CHR ''/'' \<and> b = CHR ''/'' \<or> double_slash (b # cs))"
| "double_slash _ = False"

definition spec_valid_topic :: "string \<Rightarrow> bool" where
  "spec_valid_topic t =
     (case t of
        c # d # ds \<Rightarrow>
          c = CHR ''/'' \<and> topic_start_char d \<and> list_all topic_char ds \<and>
          \<not> double_slash t \<and> last t \<noteq> CHR ''/''
      | _ \<Rightarrow> False)"

section \<open>The lists of a node\<close>

lemma Subscribe_no_duplicates:
  "no_duplicates n \<Longrightarrow> no_duplicates (fst (Subscribe topic cb hUuid n p))"
  by (simp add: Subscribe_def no_duplicates_def Let_def)

lemma Advertise_srv_no_duplicates:
  "no_duplicates n \<Longrightarrow> no_duplicates (fst (Advertise_srv topic cb scope n p))"
  by (simp add: Advertise_srv_def no_duplicates_def Let_def)

lemma do_call_no_duplicates:
  "no_duplicates (fst s) \<Longrightarrow> no_duplicates (fst (do_call c s))"
  by (cases c; cases s) (simp_all add: Subscribe_no_duplicates Advertise_srv_no_duplicates)

text \<open>
  Claim C9. \<^verbatim>\<open>topicsSubscribed\<close> and \<^verbatim>\<open>srvsAdvertised\<close> never contain duplicates:
  \<^verbatim>\<open>Subscribe\<close> and the service \<^verbatim>\<open>Advertise\<close> append the topic only when
  \<^verbatim>\<open>std::find\<close> does not find it, and the two \<^verbatim>\<open>Request\<close> calls do not touch the
  lists. So from a node whose lists are free of duplicates (a new node, whose lists are
  empty, is one), every sequence of calls leads to a node whose lists are free of
  duplicates.
\<close>

theorem lists_never_hold_duplicates:
  "no_duplicates n \<Longrightarrow> no_duplicates (fst (do_calls cs (n, p)))"
proof (induction cs arbitrary: n p)
  case Nil
  then show ?case by simp
next
  case (Cons c cs)
  obtain n' p' where step: "do_call c (n, p) = (n', p')" by (cases "do_call c (n, p)")
  from Cons.prems have "no_duplicates (fst (do_call c (n, p)))"
    using do_call_no_duplicates [of "(n, p)" c] by simp
  with step have "no_duplicates n'" by simp
  then have "no_duplicates (fst (do_calls cs (n', p')))" by (rule Cons.IH)
  with step show ?case by simp
qed

theorem lists_never_hold_duplicates_witness:
  "no_duplicates (new_Node ''n1'') \<and>
   topicsSubscribed (fst (do_calls
     [Call_Subscribe ''/foo'' (0::nat) ''h1'', Call_Subscribe ''/bar'' 1 ''h2'',
      Call_Subscribe ''/foo'' 2 ''h3'',
      Call_Advertise_srv ''/echo'' (\<lambda>t (req::nat) rep res. (req, True)) Scope_All,
      Call_Advertise_srv ''/echo'' (\<lambda>t req rep res. (rep, False)) Scope_All]
     (new_Node ''n1'', new_NodePrivate ''tcp://a''))) = [''/foo'', ''/bar''] \<and>
   srvsAdvertised (fst (do_calls
     [Call_Subscribe ''/foo'' (0::nat) ''h1'', Call_Subscribe ''/bar'' 1 ''h2'',
      Call_Subscribe ''/foo'' 2 ''h3'',
      Call_Advertise_srv ''/echo'' (\<lambda>t (req::nat) rep res. (req, True)) Scope_All,
      Call_Advertise_srv ''/echo'' (\<lambda>t req rep res. (rep, False)) Scope_All]
     (new_Node ''n1'', new_NodePrivate ''tcp://a''))) = [''/echo''] \<and>
   no_duplicates (fst (do_calls
     [Call_Subscribe ''/foo'' (0::nat) ''h1'', Call_Subscribe ''/bar'' 1 ''h2'',
      Call_Subscribe ''/foo'' 2 ''h3'',
      Call_Advertise_srv ''/echo'' (\<lambda>t (req::nat) rep res. (req, True)) Scope_All,
      Call_Advertise_srv ''/echo'' (\<lambda>t req rep res. (rep, False)) Scope_All]
     (new_Node ''n1'', new_NodePrivate ''tcp://a'')))"
proof -
  have h: "no_duplicates (new_Node ''n1'')" by (simp add: no_duplicates_def new_Node_def)
  note w = lists_never_hold_duplicates [OF h]
  show ?thesis
    apply (intro conjI)
       apply (rule h)
      apply (simp add: Subscribe_def Advertise_srv_def new_Node_def Let_def)
     apply (simp add: Subscribe_def Advertise_srv_def new_Node_def Let_def)
    apply (rule w)
    done
qed

section \<open>Requests served inside the process\<close>

text \<open>
  Claim C2. A blocking \<^verbatim>\<open>Request\<close> on a topic for which the process holds a replier
  (\<^verbatim>\<open>GetRepHandlers\<close> returns a non-empty map) runs the callback of the first replier
  of that map on the caller's \<^verbatim>\<open>_rep\<close> and \<^verbatim>\<open>_result\<close>, which so receive what the
  callback leaves in them, and returns \<^verbatim>\<open>true\<close>. The registry of pending requests is
  as before, and the call of the replier is all the call has done: nothing is sent and
  the discovery service is not called.
\<close>

theorem blocking_Request_local_replier:
  assumes "GetRepHandlers topic (repliers p) \<noteq> []"
  shows "case hd (GetRepHandlers topic (repliers p)) of (u, h) \<Rightarrow>
         case Request_blocking topic req timeout rep_in result_in hUuid woken parse n p of
           (ret, rep_out, result_out, p') \<Rightarrow>
             ret = True \<and>
             (rep_out, result_out) = rep_cb h topic req rep_in result_in \<and>
             requests p' = requests p \<and>
             new_events p p' = [ReplierCalled u topic req] \<and>
             filter network_event (new_events p p') = []"
proof (cases "GetRepHandlers topic (repliers p)")
  case Nil
  with assms show ?thesis by simp
next
  case (Cons e rest)
  obtain u h where e: "e = (u, h)" by (cases e)
  show ?thesis
    by (simp add: Request_blocking_def Cons e RunLocalCallback_def new_events_def
        split: prod.splits)
qed

theorem blocking_Request_local_replier_witness:
  "GetRepHandlers ''/echo'' (repliers (snd (Advertise_srv ''/echo'' echo Scope_All
       (new_Node ''n1'') (new_NodePrivate ''tcp://a'' :: (nat, nat) NodePrivate)))) \<noteq> [] \<and>
   (case Request_blocking ''/echo'' 10 1000 0 False ''r1'' id (\<lambda>bytes m. m) (new_Node ''n2'')
           (snd (Advertise_srv ''/echo'' echo Scope_All
              (new_Node ''n1'') (new_NodePrivate ''tcp://a'' :: (nat, nat) NodePrivate))) of
      (ret, rep_out, result_out, p') \<Rightarrow>
        ret = True \<and> rep_out = 10 \<and> result_out = True \<and> requests p' = Map.empty \<and>
        filter network_event (new_events
          (snd (Advertise_srv ''/echo'' echo Scope_All
              (new_Node ''n1'') (new_NodePrivate ''tcp://a'' :: (nat, nat) NodePrivate))) p') = [])"
proof -
  let ?p = "snd (Advertise_srv ''/echo'' echo Scope_All
       (new_Node ''n1'') (new_NodePrivate ''tcp://a'' :: (nat, nat) NodePrivate))"
  have g: "GetRepHandlers ''/echo'' (repliers ?p) = [(''n1'', \<lparr>rep_nUuid = ''n1'', rep_cb = echo\<rparr>)]"
    by (simp add: Advertise_srv_def GetRepHandlers_def AddRepHandler_def new_Node_def
        new_NodePrivate_def Let_def)
  have r: "requests ?p = Map.empty"
    by (simp add: Advertise_srv_def new_NodePrivate_def Let_def)
  have h: "GetRepHandlers ''/echo'' (repliers ?p) \<noteq> []" by (simp add: g)
  show ?thesis
    using blocking_Request_local_replier [OF h, where req = 10 and timeout = 1000 and rep_in = 0
        and result_in = False and hUuid = "''r1''" and woken = id and parse = "\<lambda>bytes m. m"
        and n = "new_Node ''n2''"]
    by (simp add: g r echo_def split: prod.splits)
qed

text \<open>
  Claim C6. A non-blocking \<^verbatim>\<open>Request\<close> on a topic for which the process holds a
  replier runs the callback of the first replier on a fresh response and then calls
  \<^verbatim>\<open>_cb(_topic, rep, result)\<close> with what the replier produced, in this order and before
  it returns. The registry of pending requests is as before, nothing is sent and the
  discovery service is not called.
\<close>

theorem Request_local_replier:
  assumes "GetRepHandlers topic (repliers p) \<noteq> []"
  shows "case hd (GetRepHandlers topic (repliers p)) of (u, h) \<Rightarrow>
         case rep_cb h topic req rep_new result_new of (rep1, result1) \<Rightarrow>
           new_events p (Request topic req cb hUuid rep_new result_new n p) =
             [ReplierCalled u topic req, RequestCallback cb topic rep1 result1] \<and>
           requests (Request topic req cb hUuid rep_new result_new n p) = requests p \<and>
           filter network_event (new_events p (Request topic req cb hUuid rep_new result_new n p)) = []"
proof (cases "GetRepHandlers topic (repliers p)")
  case Nil
  with assms show ?thesis by simp
next
  case (Cons e rest)
  obtain u h where e: "e = (u, h)" by (cases e)
  show ?thesis
    by (simp add: Request_def Cons e RunLocalCallback_def new_events_def
        split: prod.splits)
qed

theorem Request_local_replier_witness:
  "GetRepHandlers ''/echo'' (repliers (snd (Advertise_srv ''/echo'' echo Scope_All
       (new_Node ''n1'') (new_NodePrivate ''tcp://a'' :: (nat, nat) NodePrivate)))) \<noteq> [] \<and>
   new_events
     (snd (Advertise_srv ''/echo'' echo Scope_All
        (new_Node ''n1'') (new_NodePrivate ''tcp://a'' :: (nat, nat) NodePrivate)))
     (Request ''/echo'' 10 7 ''r1'' 0 False (new_Node ''n2'')
        (snd (Advertise_srv ''/echo'' echo Scope_All
           (new_Node ''n1'') (new_NodePrivate ''tcp://a'' :: (nat, nat) NodePrivate))))
   = [ReplierCalled ''n1'' ''/echo'' 10, RequestCallback 7 ''/echo'' 10 True] \<and>
   requests (Request ''/echo'' 10 7 ''r1'' 0 False (new_Node ''n2'')
        (snd (Advertise_srv ''/echo'' echo Scope_All
           (new_Node ''n1'') (new_NodePrivate ''tcp://a'' :: (nat, nat) NodePrivate))))
   = Map.empty"
proof -
  let ?p = "snd (Advertise_srv ''/echo'' echo Scope_All
       (new_Node ''n1'') (new_NodePrivate ''tcp://a'' :: (nat, nat) NodePrivate))"
  have g: "GetRepHandlers ''/echo'' (repliers ?p) = [(''n1'', \<lparr>rep_nUuid = ''n1'', rep_cb = echo\<rparr>)]"
    by (simp add: Advertise_srv_def GetRepHandlers_def AddRepHandler_def new_Node_def
        new_NodePrivate_def Let_def)
  have r: "requests ?p = Map.empty"
    by (simp add: Advertise_srv_def new_NodePrivate_def Let_def)
  have h: "GetRepHandlers ''/echo'' (repliers ?p) \<noteq> []" by (simp add: g)
  show ?thesis
    using Request_local_replier [OF h, where req = 10 and cb = 7 and rep_new = 0
        and result_new = False and hUuid = "''r1''" and n = "new_Node ''n2''"]
    by (simp add: g r echo_def split: prod.splits)
qed

section \<open>The selection of a responder\<close>

lemma lex_pair_total:
  fixes a b :: "'a::linorder" and c d :: "'b::linorder"
  shows "(a < b \<or> a = b \<and> c \<le> d) \<or> (b < a \<or> b = a \<and> d \<le> c)"
  by auto

lemma lex_pair_trans:
  fixes a b c :: "'a::linorder" and x y z :: "'b::linorder"
  shows "a < b \<or> a = b \<and> x \<le> y \<Longrightarrow> b < c \<or> b = c \<and> y \<le> z \<Longrightarrow> a < c \<or> a = c \<and> x \<le> z"
  by auto


lemma identity_le_total: "identity_le a b \<or> identity_le b a"
  unfolding identity_le_def by (rule lex_pair_total)

lemma identity_le_refl: "identity_le a a"
  unfolding identity_le_def by (rule disjI2) (rule conjI [OF refl order_refl])

lemma identity_le_trans: "identity_le a b \<Longrightarrow> identity_le b c \<Longrightarrow> identity_le a c"
  unfolding identity_le_def by (rule lex_pair_trans)


lemma lowest_responder_member: "lowest_responder best rs \<in> set (best # rs)"
proof (induction rs arbitrary: best)
  case Nil
  show ?case by simp
next
  case (Cons r rs)
  have "lowest_responder (if identity_le best r then best else r) rs
          \<in> set ((if identity_le best r then best else r) # rs)"
    by (rule Cons.IH)
  then show ?case by (auto split: if_splits)
qed

lemma lowest_responder_below_start: "identity_le (lowest_responder best rs) best"
proof (induction rs arbitrary: best)
  case Nil
  show ?case by (simp add: identity_le_refl)
next
  case (Cons r rs)
  show ?case
  proof (cases "identity_le best r")
    case True
    then show ?thesis using Cons.IH [of best] by simp
  next
    case False
    then have "identity_le r best" using identity_le_total [of best r] by simp
    moreover have "identity_le (lowest_responder r rs) r" by (rule Cons.IH)
    ultimately have "identity_le (lowest_responder r rs) best" by (rule identity_le_trans [rotated])
    with False show ?thesis by simp
  qed
qed

lemma lowest_responder_lowest:
  "x \<in> set (best # rs) \<Longrightarrow> identity_le (lowest_responder best rs) x"
proof (induction rs arbitrary: best)
  case Nil
  then show ?case by (simp add: identity_le_refl)
next
  case (Cons r rs)
  let ?b = "if identity_le best r then best else r"
  have below: "identity_le (lowest_responder ?b rs) ?b" by (rule lowest_responder_below_start)
  have b_best: "identity_le ?b best"
    using identity_le_total [of best r] identity_le_refl [of best] by (cases "identity_le best r") simp_all
  have b_r: "identity_le ?b r"
    using identity_le_refl [of r] by (cases "identity_le best r") simp_all
  from Cons.prems consider "x = best" | "x = r" | "x \<in> set rs" by auto
  then show ?case
  proof cases
    case 1
    with identity_le_trans [OF below b_best] show ?thesis by (simp del: if_split)
  next
    case 2
    with identity_le_trans [OF below b_r] show ?thesis by (simp del: if_split)
  next
    case 3
    then have "x \<in> set (?b # rs)" by simp
    then show ?thesis using Cons.IH [of ?b] by simp
  qed
qed

lemma select_responder_lowest:
  assumes "rs \<noteq> []"
  shows "\<exists>r. select_responder rs = Some r \<and> r \<in> set rs \<and> (\<forall>x \<in> set rs. identity_le r x)"
proof (cases rs)
  case Nil
  with assms show ?thesis by simp
next
  case (Cons a rest)
  then show ?thesis
    using lowest_responder_member [of a rest] lowest_responder_lowest [of _ a rest]
    by (simp add: select_responder_def)
qed



section \<open>The registries\<close>

text \<open>
  The list of entries stays in key order under \<^verbatim>\<open>m[k] = v\<close>, so that its head is
  \<^verbatim>\<open>begin()\<close>, the entry with the least key.
\<close>

lemma keys_std_map_assign:
  "set (map fst (std_map_assign k v m)) = insert k (set (map fst m))"
proof (induction m)
  case Nil
  show ?case by simp
next
  case (Cons e m)
  obtain k' v' where e: "e = (k', v')" by (cases e)
  show ?case
  proof (cases "k < k'")
    case True
    then show ?thesis by (simp add: e)
  next
    case False
    show ?thesis
    proof (cases "k = k'")
      case True
      then show ?thesis by (simp add: e)
    next
      case ne: False
      with False have "map fst (std_map_assign k v (e # m)) = k' # map fst (std_map_assign k v m)"
        by (simp add: e)
      then show ?thesis using Cons.IH by (simp add: e insert_commute)
    qed
  qed
qed

lemma std_map_assign_sorted:
  "sorted_wrt (<) (map fst m) \<Longrightarrow> sorted_wrt (<) (map fst (std_map_assign k v m))"
proof (induction m)
  case Nil
  show ?case by simp
next
  case (Cons e m)
  obtain k' v' where e: "e = (k', v')" by (cases e)
  from Cons.prems e have above: "\<forall>x \<in> set (map fst m). k' < x"
    and rest: "sorted_wrt (<) (map fst m)"
    by auto
  show ?case
  proof (cases "k < k'")
    case True
    with above rest show ?thesis by (auto simp add: e intro: less_trans)
  next
    case False
    show ?thesis
    proof (cases "k = k'")
      case True
      with above rest show ?thesis by (simp add: e)
    next
      case ne: False
      with False have "k' < k" by simp
      with above have "\<forall>x \<in> set (map fst (std_map_assign k v m)). k' < x"
        unfolding keys_std_map_assign by simp
      with Cons.IH [OF rest] False ne show ?thesis by (simp add: e)
    qed
  qed
qed

lemma std_map_begin_least:
  fixes m :: "'v std_map"
  shows "sorted_wrt (<) (map fst m) \<Longrightarrow> m \<noteq> [] \<Longrightarrow> \<forall>x \<in> fst ` set m. fst (hd m) \<le> x"
  by (cases m) (auto intro: less_imp_le)

lemma map_of_std_map_assign: "map_of (std_map_assign k v m) = (map_of m)(k \<mapsto> v)"
  by (induction m) (auto simp add: fun_eq_iff)

lemma requests_SendPendingRemoteReqs: "requests (SendPendingRemoteReqs topic p) = requests p"
  by (simp add: SendPendingRemoteReqs_def split: option.splits)

section \<open>Subscribing\<close>

text \<open>
  Claim C4 says that \<^verbatim>\<open>Subscribe\<close> checks the topic against the grammar of topic keys
  and rejects an invalid one without inserting a handler. \<^verbatim>\<open>Subscribe\<close> has no such
  check: for the topic \<^verbatim>\<open>/foo//\<close>, which has a double slash and a trailing slash, the
  handler is inserted, the topic is recorded and the discovery service is asked for the
  topic.
\<close>

theorem Subscribe_accepts_invalid_topic:
  "\<not> spec_valid_topic ''/foo//'' \<and>
   localSubscriptions (snd (Subscribe ''/foo//'' (7::nat) ''h1'' (new_Node ''n1'')
       (new_NodePrivate ''tcp://a'' :: (nat, nat) NodePrivate))) ''/foo//'' =
     Some [(''h1'', \<lparr>sub_hUuid = ''h1'', sub_nUuid = ''n1'', sub_cb = 7\<rparr>)] \<and>
   topicsSubscribed (fst (Subscribe ''/foo//'' (7::nat) ''h1'' (new_Node ''n1'')
       (new_NodePrivate ''tcp://a'' :: (nat, nat) NodePrivate))) = [''/foo//''] \<and>
   trace (snd (Subscribe ''/foo//'' (7::nat) ''h1'' (new_Node ''n1'')
       (new_NodePrivate ''tcp://a'' :: (nat, nat) NodePrivate))) = [Discover False ''/foo//'']"
  by (simp add: spec_valid_topic_def topic_start_char_def topic_char_def Subscribe_def
      AddSubscriptionHandler_def new_Node_def new_NodePrivate_def Let_def)

text \<open>
  Claim C4, amended. For every call \<^verbatim>\<open>Subscribe(topic, callback)\<close>, whatever the topic
  (the name is not validated), a handler with the node's UUID and the callback is
  inserted in the registry of subscriptions under the topic, the topic is in
  \<^verbatim>\<open>topicsSubscribed\<close> afterwards, and \<^verbatim>\<open>discovery->Discover(false, topic)\<close> is
  invoked.
\<close>

theorem Subscribe_registers_every_topic:
  "(\<exists>m. localSubscriptions (snd (Subscribe topic cb hUuid n p)) topic = Some m \<and>
        map_of m hUuid = Some \<lparr>sub_hUuid = hUuid, sub_nUuid = nUuidStr n, sub_cb = cb\<rparr>) \<and>
   topic \<in> set (topicsSubscribed (fst (Subscribe topic cb hUuid n p))) \<and>
   trace (snd (Subscribe topic cb hUuid n p)) = trace p @ [Discover False topic]"
  by (simp add: Subscribe_def AddSubscriptionHandler_def Let_def map_of_std_map_assign)

section \<open>Advertising a service\<close>

text \<open>
  Claim C1 says that a service \<^verbatim>\<open>Advertise\<close> on a topic for which the process already
  holds a replier fails with \<^verbatim>\<open>AlreadyAdvertised\<close> and leaves the first replier the only
  responder. The call returns \<^verbatim>\<open>void\<close> and tests nothing: when node \<^verbatim>\<open>nB\<close> and then
  node \<^verbatim>\<open>nA\<close> of one process advertise \<^verbatim>\<open>/echo\<close>, the registry holds a replier for
  each of them, the discovery service is told of both, and a request of the process is
  then answered by the second replier, the first of the map.
\<close>

theorem second_service_Advertise_succeeds:
  "map fst (GetRepHandlers ''/echo'' (repliers
      (snd (Advertise_srv ''/echo'' refuse Scope_All (new_Node ''nA'')
         (snd (Advertise_srv ''/echo'' echo Scope_All (new_Node ''nB'')
            (new_NodePrivate ''tcp://a'' :: (nat, nat) NodePrivate))))))) = [''nA'', ''nB''] \<and>
   trace (snd (Advertise_srv ''/echo'' refuse Scope_All (new_Node ''nA'')
         (snd (Advertise_srv ''/echo'' echo Scope_All (new_Node ''nB'')
            (new_NodePrivate ''tcp://a'' :: (nat, nat) NodePrivate))))) =
     [DiscoveryAdvertise Srv ''/echo'' ''tcp://a'' [] ''nB'' Scope_All,
      DiscoveryAdvertise Srv ''/echo'' ''tcp://a'' [] ''nA'' Scope_All] \<and>
   fst (snd (Request_blocking ''/echo'' 10 1000 0 True ''r1'' no_response parse_length
      (new_Node ''nC'')
      (snd (Advertise_srv ''/echo'' refuse Scope_All (new_Node ''nA'')
         (snd (Advertise_srv ''/echo'' echo Scope_All (new_Node ''nB'')
            (new_NodePrivate ''tcp://a''))))))) = 11"
  by (simp add: Request_blocking_def GetRepHandlers_def Advertise_srv_def AddRepHandler_def
      new_NodePrivate_def new_Node_def RunLocalCallback_def refuse_def Let_def)

text \<open>
  Claim C1, amended. A service \<^verbatim>\<open>Advertise(t, callback)\<close> never fails, whether or not
  the process already holds a replier for \<^verbatim>\<open>t\<close>: it stores the new handler in the
  registry of repliers under \<^verbatim>\<open>t\<close> and the UUID of the calling node, where it replaces
  an earlier handler of the same node only; the handlers that other nodes hold for
  \<^verbatim>\<open>t\<close> stay, so one topic can have several repliers in a process. The topic is in
  \<^verbatim>\<open>srvsAdvertised\<close> afterwards and \<^verbatim>\<open>discovery->Advertise\<close> is called for the
  service.
\<close>

theorem service_Advertise_never_fails:
  "map_of (GetRepHandlers topic (repliers (snd (Advertise_srv topic cb scope n p)))) (nUuidStr n) =
     Some \<lparr>rep_nUuid = nUuidStr n, rep_cb = cb\<rparr> \<and>
   (\<forall>u. u \<noteq> nUuidStr n \<longrightarrow>
      map_of (GetRepHandlers topic (repliers (snd (Advertise_srv topic cb scope n p)))) u =
      map_of (GetRepHandlers topic (repliers p)) u) \<and>
   topic \<in> set (srvsAdvertised (fst (Advertise_srv topic cb scope n p))) \<and>
   trace (snd (Advertise_srv topic cb scope n p)) =
     trace p @ [DiscoveryAdvertise Srv topic (myReplierAddress p) [] (nUuidStr n) scope]"
  by (simp add: Advertise_srv_def AddRepHandler_def GetRepHandlers_def Let_def
      map_of_std_map_assign)

theorem service_Advertise_never_fails_witness:
  "''nB'' \<noteq> nUuidStr (new_Node ''nA'') \<and>
   map_option rep_nUuid (map_of (GetRepHandlers ''/echo'' (repliers
      (snd (Advertise_srv ''/echo'' refuse Scope_All (new_Node ''nA'')
         (snd (Advertise_srv ''/echo'' echo Scope_All (new_Node ''nB'')
            (new_NodePrivate ''tcp://a'' :: (nat, nat) NodePrivate))))))) ''nB'') = Some ''nB'' \<and>
   map_option rep_nUuid (map_of (GetRepHandlers ''/echo'' (repliers
      (snd (Advertise_srv ''/echo'' refuse Scope_All (new_Node ''nA'')
         (snd (Advertise_srv ''/echo'' echo Scope_All (new_Node ''nB'')
            (new_NodePrivate ''tcp://a'' :: (nat, nat) NodePrivate))))))) ''nA'') = Some ''nA''"
proof -
  let ?p1 = "snd (Advertise_srv ''/echo'' echo Scope_All (new_Node ''nB'')
            (new_NodePrivate ''tcp://a'' :: (nat, nat) NodePrivate))"
  have d: "''nB'' \<noteq> nUuidStr (new_Node ''nA'')" by (simp add: new_Node_def)
  have first: "map_option rep_nUuid (map_of (GetRepHandlers ''/echo'' (repliers ?p1)) ''nB'') = Some ''nB''"
    by (simp add: Advertise_srv_def AddRepHandler_def GetRepHandlers_def new_Node_def
        new_NodePrivate_def Let_def)
  note w = service_Advertise_never_fails [where topic = "''/echo''" and cb = refuse
      and scope = Scope_All and n = "new_Node ''nA''" and p = ?p1]
  from w have kept: "map_of (GetRepHandlers ''/echo'' (repliers
      (snd (Advertise_srv ''/echo'' refuse Scope_All (new_Node ''nA'') ?p1)))) ''nB'' =
      map_of (GetRepHandlers ''/echo'' (repliers ?p1)) ''nB''"
    using d by blast
  from w have new: "map_option rep_nUuid (map_of (GetRepHandlers ''/echo'' (repliers
      (snd (Advertise_srv ''/echo'' refuse Scope_All (new_Node ''nA'') ?p1)))) ''nA'') = Some ''nA''"
    by (simp add: new_Node_def)
  show ?thesis using d first kept new by simp
qed

section \<open>Requests that wait\<close>

text \<open>
  Claim C3 says that when the deadline of a blocking \<^verbatim>\<open>Request\<close> expires the pending
  request has been removed from the registry of requests. The call removes nothing: after
  a request on \<^verbatim>\<open>/nonexistent\<close> that timed out, the handler is still stored under the
  topic.
\<close>

theorem blocking_Request_timeout_entry_not_removed:
  "fst (Request_blocking ''/nonexistent'' 10 200 0 False ''r1'' no_response parse_length
          (new_Node ''n1'') (new_NodePrivate ''tcp://a'')) = False \<and>
   requests (snd (snd (snd (Request_blocking ''/nonexistent'' 10 200 0 False ''r1'' no_response
          parse_length (new_Node ''n1'') (new_NodePrivate ''tcp://a''))))) ''/nonexistent'' =
     Some [(''r1'', \<lparr>req_hUuid = ''r1'', req_nUuid = ''n1'', reqMsg = Some 10, req_cb = None,
                     repAvailable = False, result = False, rep = []\<rparr>)]"
  by (simp add: Request_blocking_def GetRepHandlers_def new_NodePrivate_def new_Node_def
      AddReqHandler_def GetTopicAddresses_def new_ReqHandler_def no_response_def Let_def)

text \<open>
  Claim C3, amended. When a blocking \<^verbatim>\<open>Request\<close> finds no replier in the process and
  no response is available when its wait ends, the call returns \<^verbatim>\<open>false\<close> and the
  pending request is still in the registry of requests when the call returns: the call
  does not remove it. The entry carries the request and no callback (the blocking call
  sets none), and its completion slot is empty.
\<close>

theorem blocking_Request_timeout:
  assumes "GetRepHandlers topic (repliers p) = []"
    and "\<not> repAvailable (woken ((new_ReqHandler (nUuidStr n) hUuid)\<lparr>reqMsg := Some req\<rparr>))"
  shows "case Request_blocking topic req timeout rep_in result_in hUuid woken parse n p of
           (ret, rep_out, result_out, p') \<Rightarrow>
             ret = False \<and>
             (\<exists>h. map_of (GetReqHandlers topic (requests p')) hUuid = Some h \<and>
                  req_nUuid h = nUuidStr n \<and> reqMsg h = Some req \<and> req_cb h = None \<and>
                  \<not> repAvailable h)"
  using assms
  by (simp add: Request_blocking_def Let_def requests_SendPendingRemoteReqs AddReqHandler_def
      GetReqHandlers_def map_of_std_map_assign new_ReqHandler_def)

theorem blocking_Request_timeout_witness:
  "GetRepHandlers ''/nonexistent'' (repliers (new_NodePrivate ''tcp://a'' :: (nat, nat) NodePrivate)) = [] \<and>
   \<not> repAvailable (no_response ((new_ReqHandler ''n1'' ''r1'')\<lparr>reqMsg := Some 10\<rparr>)) \<and>
   fst (Request_blocking ''/nonexistent'' 10 200 0 False ''r1'' no_response parse_length
          (new_Node ''n1'') (new_NodePrivate ''tcp://a'')) = False \<and>
   map_option req_cb (map_of (GetReqHandlers ''/nonexistent'' (requests (snd (snd (snd
       (Request_blocking ''/nonexistent'' 10 200 0 False ''r1'' no_response parse_length
          (new_Node ''n1'') (new_NodePrivate ''tcp://a''))))))) ''r1'') = Some None"
proof -
  have g: "GetRepHandlers ''/nonexistent'' (repliers (new_NodePrivate ''tcp://a'' :: (nat, nat) NodePrivate)) = []"
    by (simp add: GetRepHandlers_def new_NodePrivate_def)
  have w: "\<not> repAvailable (no_response ((new_ReqHandler (nUuidStr (new_Node ''n1'')) ''r1'')\<lparr>reqMsg := Some 10\<rparr>))"
    by (simp add: no_response_def new_ReqHandler_def)
  have u: "nUuidStr (new_Node ''n1'') = ''n1''" by (simp add: new_Node_def)
  show ?thesis
    using g w blocking_Request_timeout [where woken = no_response and timeout = 200
        and rep_in = 0 and result_in = False and hUuid = "''r1''" and parse = parse_length,
        OF g w]
    by (auto simp add: u new_ReqHandler_def split: prod.splits)
qed

text \<open>
  Claim C10 says that a blocking \<^verbatim>\<open>Request\<close> that returns \<^verbatim>\<open>true\<close> with the result
  flag \<^verbatim>\<open>false\<close> leaves \<^verbatim>\<open>_rep\<close> unchanged. With a replier in the process the
  caller's \<^verbatim>\<open>_rep\<close> is handed to the replier's callback, which may write it and report
  failure: here \<^verbatim>\<open>_rep\<close> was 0 and is 11 after the call.
\<close>

theorem blocking_Request_local_replier_writes_rep:
  "fst (Request_blocking ''/svc'' 10 1000 0 True ''r1'' no_response parse_length (new_Node ''n2'')
          (snd (Advertise_srv ''/svc'' refuse Scope_All (new_Node ''n1'')
             (new_NodePrivate ''tcp://a'')))) = True \<and>
   fst (snd (snd (Request_blocking ''/svc'' 10 1000 0 True ''r1'' no_response parse_length
          (new_Node ''n2'')
          (snd (Advertise_srv ''/svc'' refuse Scope_All (new_Node ''n1'')
             (new_NodePrivate ''tcp://a'')))))) = False \<and>
   fst (snd (Request_blocking ''/svc'' 10 1000 0 True ''r1'' no_response parse_length
          (new_Node ''n2'')
          (snd (Advertise_srv ''/svc'' refuse Scope_All (new_Node ''n1'')
             (new_NodePrivate ''tcp://a''))))) = 11 \<and>
   (11::nat) \<noteq> 0"
  by (simp add: Request_blocking_def GetRepHandlers_def Advertise_srv_def AddRepHandler_def
      new_NodePrivate_def new_Node_def RunLocalCallback_def refuse_def Let_def)

text \<open>
  Claim C10, amended. For a blocking \<^verbatim>\<open>Request\<close> on a topic without a replier in the
  caller's process: when the call returns \<^verbatim>\<open>false\<close>, \<^verbatim>\<open>_rep\<close> and \<^verbatim>\<open>_result\<close> are as
  they were at the call; when it returns \<^verbatim>\<open>true\<close> with the result flag \<^verbatim>\<open>false\<close>,
  \<^verbatim>\<open>_rep\<close> is as it was (the bytes of the response are parsed into \<^verbatim>\<open>_rep\<close> only when
  the result flag is \<^verbatim>\<open>true\<close>). With a replier in the process the call returns
  \<^verbatim>\<open>true\<close> and \<^verbatim>\<open>_rep\<close> and \<^verbatim>\<open>_result\<close> are what the replier's callback made of
  them.
\<close>

theorem blocking_Request_outputs:
  "case Request_blocking topic req timeout rep_in result_in hUuid woken parse n p of
     (ret, rep_out, result_out, p') \<Rightarrow>
       (GetRepHandlers topic (repliers p) = [] \<longrightarrow>
          (\<not> ret \<longrightarrow> rep_out = rep_in \<and> result_out = result_in) \<and>
          (ret \<and> \<not> result_out \<longrightarrow> rep_out = rep_in)) \<and>
       (GetRepHandlers topic (repliers p) \<noteq> [] \<longrightarrow>
          ret \<and> (rep_out, result_out) =
            rep_cb (snd (hd (GetRepHandlers topic (repliers p)))) topic req rep_in result_in)"
  by (cases "GetRepHandlers topic (repliers p)")
     (auto simp add: Request_blocking_def Let_def RunLocalCallback_def split: prod.splits)

theorem blocking_Request_outputs_witness:
  "GetRepHandlers ''/far'' (repliers (new_NodePrivate ''tcp://a'' :: (nat, nat) NodePrivate)) = [] \<and>
   Request_blocking ''/far'' 10 200 5 True ''r1'' no_response parse_length
       (new_Node ''n1'') (new_NodePrivate ''tcp://a'') =
     (False, 5, True, snd (snd (snd (Request_blocking ''/far'' 10 200 5 True ''r1'' no_response
        parse_length (new_Node ''n1'') (new_NodePrivate ''tcp://a''))))) \<and>
   Request_blocking ''/far'' 10 200 5 True ''r1'' (response False ''abc'') parse_length
       (new_Node ''n1'') (new_NodePrivate ''tcp://a'') =
     (True, 5, False, snd (snd (snd (Request_blocking ''/far'' 10 200 5 True ''r1''
        (response False ''abc'') parse_length (new_Node ''n1'') (new_NodePrivate ''tcp://a''))))) \<and>
   Request_blocking ''/far'' 10 200 5 False ''r1'' (response True ''abc'') parse_length
       (new_Node ''n1'') (new_NodePrivate ''tcp://a'') =
     (True, 3, True, snd (snd (snd (Request_blocking ''/far'' 10 200 5 False ''r1''
        (response True ''abc'') parse_length (new_Node ''n1'') (new_NodePrivate ''tcp://a'')))))"
proof -
  have g: "GetRepHandlers ''/far'' (repliers (new_NodePrivate ''tcp://a'' :: (nat, nat) NodePrivate)) = []"
    by (simp add: GetRepHandlers_def new_NodePrivate_def)
  have a: "fst (Request_blocking ''/far'' 10 200 5 True ''r1'' no_response parse_length
       (new_Node ''n1'') (new_NodePrivate ''tcp://a'')) = False"
    by (simp add: Request_blocking_def g Let_def no_response_def new_ReqHandler_def)
  have b: "fst (Request_blocking ''/far'' 10 200 5 True ''r1'' (response False ''abc'') parse_length
       (new_Node ''n1'') (new_NodePrivate ''tcp://a'')) = True \<and>
     fst (snd (snd (Request_blocking ''/far'' 10 200 5 True ''r1'' (response False ''abc'') parse_length
       (new_Node ''n1'') (new_NodePrivate ''tcp://a'')))) = False"
    by (simp add: Request_blocking_def g Let_def response_def new_ReqHandler_def)
  have c: "Request_blocking ''/far'' 10 200 5 False ''r1'' (response True ''abc'') parse_length
       (new_Node ''n1'') (new_NodePrivate ''tcp://a'') =
     (True, 3, True, snd (snd (snd (Request_blocking ''/far'' 10 200 5 False ''r1''
        (response True ''abc'') parse_length (new_Node ''n1'') (new_NodePrivate ''tcp://a'')))))"
    by (simp add: Request_blocking_def g Let_def response_def new_ReqHandler_def parse_length_def)
  show ?thesis
    using g a b c
      blocking_Request_outputs [where topic = "''/far''" and p = "new_NodePrivate ''tcp://a''"
        and req = 10 and timeout = 200 and rep_in = 5 and result_in = True and hUuid = "''r1''"
        and woken = no_response and parse = parse_length and n = "new_Node ''n1''"]
      blocking_Request_outputs [where topic = "''/far''" and p = "new_NodePrivate ''tcp://a''"
        and req = 10 and timeout = 200 and rep_in = 5 and result_in = True and hUuid = "''r1''"
        and woken = "response False ''abc''" and parse = parse_length and n = "new_Node ''n1''"]
    by (auto split: prod.splits)
qed

section \<open>Requests to another process\<close>

lemma std_map_assign_member: "(k, v) \<in> set (std_map_assign k v m)"
  by (induction m) auto

lemma req_hUuid_new_ReqHandler: "req_hUuid (new_ReqHandler nUuid hUuid) = hUuid"
  by (simp add: new_ReqHandler_def)

lemma std_map_assign_twice:
  "std_map_assign k v' (std_map_assign k v m) = std_map_assign k v' m"
  by (induction m) auto

lemma AddReqHandler_twice:
  "req_hUuid h' = req_hUuid h \<Longrightarrow>
   AddReqHandler topic nUuid h' (AddReqHandler topic nUuid h reg) =
     AddReqHandler topic nUuid h' reg"
  by (simp add: AddReqHandler_def std_map_assign_twice)

lemma GetReqHandlers_AddReqHandler:
  "GetReqHandlers topic (AddReqHandler topic nUuid h reg) =
     std_map_assign (req_hUuid h) h (GetReqHandlers topic reg)"
  by (simp add: GetReqHandlers_def AddReqHandler_def)

lemma new_events_append: "trace p' = trace p @ es \<Longrightarrow> new_events p p' = es"
  by (simp add: new_events_def)

lemma all_sent_to:
  "list_all (sent_to topic addr) (map (\<lambda>(hUuid, h). SendRequest topic addr hUuid (reqMsg h)) m)"
  by (induction m) auto

lemma select_responder_None: "(select_responder rs = None) = (rs = [])"
  by (cases rs) (simp_all add: select_responder_def)

lemma trace_SendPendingRemoteReqs:
  "select_responder (discovery p topic) = Some r \<Longrightarrow>
   trace (SendPendingRemoteReqs topic p) =
     trace p @ map (\<lambda>(hUuid, h). SendRequest topic (reply_address r) hUuid (reqMsg h))
                   (GetReqHandlers topic (requests p))"
  by (simp add: SendPendingRemoteReqs_def)

lemma Request_stores:
  assumes "GetRepHandlers topic (repliers p) = []"
  shows "requests (Request topic req cb hUuid rep_new result_new n p) =
           AddReqHandler topic (nUuidStr n)
             ((new_ReqHandler (nUuidStr n) hUuid)\<lparr>reqMsg := Some req, req_cb := Some cb\<rparr>) (requests p)"
  using assms by (simp add: Request_def Let_def requests_SendPendingRemoteReqs)

lemma Request_blocking_stores:
  assumes "GetRepHandlers topic (repliers p) = []"
  shows "requests (snd (snd (snd
           (Request_blocking topic req timeout rep_in result_in hUuid woken parse n p)))) =
           AddReqHandler topic (nUuidStr n)
             ((new_ReqHandler (nUuidStr n) hUuid)\<lparr>reqMsg := Some req,
                repAvailable :=
                  repAvailable (woken ((new_ReqHandler (nUuidStr n) hUuid)\<lparr>reqMsg := Some req\<rparr>)),
                result :=
                  result (woken ((new_ReqHandler (nUuidStr n) hUuid)\<lparr>reqMsg := Some req\<rparr>)),
                rep :=
                  rep (woken ((new_ReqHandler (nUuidStr n) hUuid)\<lparr>reqMsg := Some req\<rparr>))\<rparr>)
             (requests p)"
  using assms
  by (simp add: Request_blocking_def Let_def requests_SendPendingRemoteReqs AddReqHandler_twice)

lemma Request_unknown_responder:
  assumes "GetRepHandlers topic (repliers p) = []" and "discovery p topic = []"
  shows "new_events p (Request topic req cb hUuid rep_new result_new n p) = [Discover True topic]"
  using assms by (simp add: Request_def Let_def GetTopicAddresses_def new_events_def)

lemma Request_blocking_unknown_responder:
  assumes "GetRepHandlers topic (repliers p) = []" and "discovery p topic = []"
  shows "new_events p (snd (snd (snd
           (Request_blocking topic req timeout rep_in result_in hUuid woken parse n p)))) =
         [Discover True topic, WaitUntil hUuid timeout]"
  using assms by (simp add: Request_blocking_def Let_def GetTopicAddresses_def new_events_def)

lemma Request_known_responder:
  assumes "GetRepHandlers topic (repliers p) = []"
    and "select_responder (discovery p topic) = Some r"
  shows "new_events p (Request topic req cb hUuid rep_new result_new n p) =
           map (\<lambda>(hUuid, h). SendRequest topic (reply_address r) hUuid (reqMsg h))
             (std_map_assign hUuid
                ((new_ReqHandler (nUuidStr n) hUuid)\<lparr>reqMsg := Some req, req_cb := Some cb\<rparr>)
                (GetReqHandlers topic (requests p)))"
proof -
  from assms(2) have known: "discovery p topic \<noteq> []"
    using select_responder_None [of "discovery p topic"] by auto
  let ?p1 = "p\<lparr>requests := AddReqHandler topic (nUuidStr n)
      ((new_ReqHandler (nUuidStr n) hUuid)\<lparr>reqMsg := Some req, req_cb := Some cb\<rparr>) (requests p)\<rparr>"
  have eq: "Request topic req cb hUuid rep_new result_new n p = SendPendingRemoteReqs topic ?p1"
    using assms(1) known by (simp add: Request_def Let_def GetTopicAddresses_def)
  have sel: "select_responder (discovery ?p1 topic) = Some r" using assms(2) by simp
  show ?thesis
    unfolding eq
    by (rule new_events_append)
       (simp add: trace_SendPendingRemoteReqs [OF sel] GetReqHandlers_AddReqHandler
          req_hUuid_new_ReqHandler)
qed

lemma Request_blocking_known_responder:
  assumes "GetRepHandlers topic (repliers p) = []"
    and "select_responder (discovery p topic) = Some r"
  shows "new_events p (snd (snd (snd
           (Request_blocking topic req timeout rep_in result_in hUuid woken parse n p)))) =
           map (\<lambda>(hUuid, h). SendRequest topic (reply_address r) hUuid (reqMsg h))
             (std_map_assign hUuid ((new_ReqHandler (nUuidStr n) hUuid)\<lparr>reqMsg := Some req\<rparr>)
                (GetReqHandlers topic (requests p))) @ [WaitUntil hUuid timeout]"
proof -
  from assms(2) have known: "discovery p topic \<noteq> []"
    using select_responder_None [of "discovery p topic"] by auto
  let ?p1 = "p\<lparr>requests := AddReqHandler topic (nUuidStr n)
      ((new_ReqHandler (nUuidStr n) hUuid)\<lparr>reqMsg := Some req\<rparr>) (requests p)\<rparr>"
  have tr: "trace (snd (snd (snd
           (Request_blocking topic req timeout rep_in result_in hUuid woken parse n p)))) =
      trace (SendPendingRemoteReqs topic ?p1) @ [WaitUntil hUuid timeout]"
    using assms(1) known by (simp add: Request_blocking_def Let_def GetTopicAddresses_def)
  have sel: "select_responder (discovery ?p1 topic) = Some r" using assms(2) by simp
  show ?thesis
    by (rule new_events_append)
       (simp add: tr trace_SendPendingRemoteReqs [OF sel] GetReqHandlers_AddReqHandler
          req_hUuid_new_ReqHandler)
qed

lemma sent_member:
  "SendRequest topic addr k (reqMsg v)
     \<in> set (map (\<lambda>(hUuid, h). SendRequest topic addr hUuid (reqMsg h)) (std_map_assign k v m))"
  using std_map_assign_member [of k v m] by force

text \<open>
  Claim C7 says that a \<^verbatim>\<open>Request\<close> without a local replier makes sure that the
  discovery service has issued a \<^verbatim>\<open>SUBSCRIBE_SRV\<close> for the topic and, when responders
  are known, also sends the request. The call does one or the other: in a process whose
  discovery service knows two responders of \<^verbatim>\<open>/echo\<close> and has never been asked for the
  topic, both overloads send the request to the selected responder and do not call
  \<^verbatim>\<open>Discover\<close>.
\<close>

theorem Request_known_responder_skips_discovery:
  "GetRepHandlers ''/echo'' (repliers
      (learn_responders ''/echo'' [responder_b, responder_a]
         (new_NodePrivate ''tcp://me'' :: (nat, nat) NodePrivate))) = [] \<and>
   trace (Request ''/echo'' 10 7 ''r1'' 0 False (new_Node ''n1'')
      (learn_responders ''/echo'' [responder_b, responder_a]
         (new_NodePrivate ''tcp://me'' :: (nat, nat) NodePrivate))) =
     [SendRequest ''/echo'' ''tcp://a:2'' ''r1'' (Some 10)] \<and>
   trace (snd (snd (snd (Request_blocking ''/echo'' 10 200 0 False ''r1'' no_response
      parse_length (new_Node ''n1'')
      (learn_responders ''/echo'' [responder_b, responder_a]
         (new_NodePrivate ''tcp://me'' :: (nat, nat) NodePrivate)))))) =
     [SendRequest ''/echo'' ''tcp://a:2'' ''r1'' (Some 10), WaitUntil ''r1'' 200]"
  by (simp add: Request_def Request_blocking_def GetRepHandlers_def learn_responders_def
      new_NodePrivate_def new_Node_def AddReqHandler_def GetReqHandlers_def
      GetTopicAddresses_def SendPendingRemoteReqs_def select_responder_def identity_le_def
      responder_a_def responder_b_def new_ReqHandler_def Let_def)

text \<open>
  Claim C7, amended. Every \<^verbatim>\<open>Request\<close> (blocking or non-blocking) without a local
  replier allocates a pending request and stores it in the registry of requests. When
  responder addresses are already known, it sends the request frame to exactly one
  responder, the one the tie-break selects (the others are not contacted), and does not
  call the discovery service; only when none is known does it call
  \<^verbatim>\<open>discovery->Discover(true, topic)\<close>, which issues the \<^verbatim>\<open>SUBSCRIBE_SRV\<close>, and then
  it sends nothing. The blocking call then waits on the condition of the request.
\<close>

theorem Request_without_local_replier:
  assumes "GetRepHandlers topic (repliers p) = []"
  shows
    "(\<exists>h. map_of (GetReqHandlers topic
             (requests (Request topic req cb hUuid rep_new result_new n p))) hUuid = Some h \<and>
          reqMsg h = Some req \<and> req_cb h = Some cb) \<and>
     (\<exists>h. map_of (GetReqHandlers topic (requests (snd (snd (snd
             (Request_blocking topic req timeout rep_in result_in hUuid woken parse n p))))))
             hUuid = Some h \<and>
          reqMsg h = Some req \<and> req_cb h = None) \<and>
     (case select_responder (discovery p topic) of
        None \<Rightarrow>
          new_events p (Request topic req cb hUuid rep_new result_new n p) =
            [Discover True topic] \<and>
          new_events p (snd (snd (snd
             (Request_blocking topic req timeout rep_in result_in hUuid woken parse n p)))) =
            [Discover True topic, WaitUntil hUuid timeout]
      | Some r \<Rightarrow>
          r \<in> set (discovery p topic) \<and>
          SendRequest topic (reply_address r) hUuid (Some req)
            \<in> set (new_events p (Request topic req cb hUuid rep_new result_new n p)) \<and>
          list_all (sent_to topic (reply_address r))
            (new_events p (Request topic req cb hUuid rep_new result_new n p)) \<and>
          SendRequest topic (reply_address r) hUuid (Some req)
            \<in> set (butlast (new_events p (snd (snd (snd
                 (Request_blocking topic req timeout rep_in result_in hUuid woken parse n p)))))) \<and>
          list_all (sent_to topic (reply_address r))
            (butlast (new_events p (snd (snd (snd
                 (Request_blocking topic req timeout rep_in result_in hUuid woken parse n p)))))) \<and>
          last (new_events p (snd (snd (snd
                 (Request_blocking topic req timeout rep_in result_in hUuid woken parse n p))))) =
            WaitUntil hUuid timeout)"
proof (intro conjI)
  show "\<exists>h. map_of (GetReqHandlers topic
             (requests (Request topic req cb hUuid rep_new result_new n p))) hUuid = Some h \<and>
          reqMsg h = Some req \<and> req_cb h = Some cb"
    by (simp add: Request_stores [OF assms] GetReqHandlers_AddReqHandler map_of_std_map_assign
        req_hUuid_new_ReqHandler)
  show "\<exists>h. map_of (GetReqHandlers topic (requests (snd (snd (snd
             (Request_blocking topic req timeout rep_in result_in hUuid woken parse n p))))))
             hUuid = Some h \<and>
          reqMsg h = Some req \<and> req_cb h = None"
    by (simp add: Request_blocking_stores [OF assms] GetReqHandlers_AddReqHandler
        map_of_std_map_assign new_ReqHandler_def)
  show "case select_responder (discovery p topic) of
        None \<Rightarrow>
          new_events p (Request topic req cb hUuid rep_new result_new n p) =
            [Discover True topic] \<and>
          new_events p (snd (snd (snd
             (Request_blocking topic req timeout rep_in result_in hUuid woken parse n p)))) =
            [Discover True topic, WaitUntil hUuid timeout]
      | Some r \<Rightarrow>
          r \<in> set (discovery p topic) \<and>
          SendRequest topic (reply_address r) hUuid (Some req)
            \<in> set (new_events p (Request topic req cb hUuid rep_new result_new n p)) \<and>
          list_all (sent_to topic (reply_address r))
            (new_events p (Request topic req cb hUuid rep_new result_new n p)) \<and>
          SendRequest topic (reply_address r) hUuid (Some req)
            \<in> set (butlast (new_events p (snd (snd (snd
                 (Request_blocking topic req timeout rep_in result_in hUuid woken parse n p)))))) \<and>
          list_all (sent_to topic (reply_address r))
            (butlast (new_events p (snd (snd (snd
                 (Request_blocking topic req timeout rep_in result_in hUuid woken parse n p)))))) \<and>
          last (new_events p (snd (snd (snd
                 (Request_blocking topic req timeout rep_in result_in hUuid woken parse n p))))) =
            WaitUntil hUuid timeout"
  proof (cases "select_responder (discovery p topic)")
    case None
    then have unknown: "discovery p topic = []" by (simp add: select_responder_None)
    show ?thesis
      by (simp add: None Request_unknown_responder [OF assms unknown]
          Request_blocking_unknown_responder [OF assms unknown])
  next
    case (Some r)
    then have ne: "discovery p topic \<noteq> []"
      using select_responder_None [of "discovery p topic"] by auto
    from select_responder_lowest [OF ne] Some have mem: "r \<in> set (discovery p topic)" by auto
    have nb: "SendRequest topic (reply_address r) hUuid (Some req)
        \<in> set (new_events p (Request topic req cb hUuid rep_new result_new n p))"
      using sent_member [of topic "reply_address r" hUuid
          "(new_ReqHandler (nUuidStr n) hUuid)\<lparr>reqMsg := Some req, req_cb := Some cb\<rparr>"
          "GetReqHandlers topic (requests p)"]
      by (simp add: Request_known_responder [OF assms Some])
    have b: "SendRequest topic (reply_address r) hUuid (Some req)
        \<in> set (butlast (new_events p (snd (snd (snd
             (Request_blocking topic req timeout rep_in result_in hUuid woken parse n p))))))"
      using sent_member [of topic "reply_address r" hUuid
          "(new_ReqHandler (nUuidStr n) hUuid)\<lparr>reqMsg := Some req\<rparr>"
          "GetReqHandlers topic (requests p)"]
      by (simp add: Request_blocking_known_responder [OF assms Some])
    show ?thesis
      using mem nb b
      by (simp add: Some Request_known_responder [OF assms Some]
          Request_blocking_known_responder [OF assms Some] all_sent_to)
  qed
qed

theorem Request_without_local_replier_witness:
  "GetRepHandlers ''/echo'' (repliers
      (learn_responders ''/echo'' [responder_b, responder_a]
         (new_NodePrivate ''tcp://me'' :: (nat, nat) NodePrivate))) = [] \<and>
   select_responder (discovery
      (learn_responders ''/echo'' [responder_b, responder_a]
         (new_NodePrivate ''tcp://me'' :: (nat, nat) NodePrivate)) ''/echo'') = Some responder_a \<and>
   SendRequest ''/echo'' ''tcp://a:2'' ''r1'' (Some 10) \<in> set (new_events
      (learn_responders ''/echo'' [responder_b, responder_a] (new_NodePrivate ''tcp://me''))
      (Request ''/echo'' 10 7 ''r1'' 0 False (new_Node ''n1'')
         (learn_responders ''/echo'' [responder_b, responder_a]
            (new_NodePrivate ''tcp://me'' :: (nat, nat) NodePrivate)))) \<and>
   list_all (sent_to ''/echo'' ''tcp://a:2'') (new_events
      (learn_responders ''/echo'' [responder_b, responder_a] (new_NodePrivate ''tcp://me''))
      (Request ''/echo'' 10 7 ''r1'' 0 False (new_Node ''n1'')
         (learn_responders ''/echo'' [responder_b, responder_a]
            (new_NodePrivate ''tcp://me'' :: (nat, nat) NodePrivate))))"
proof -
  let ?p = "learn_responders ''/echo'' [responder_b, responder_a]
         (new_NodePrivate ''tcp://me'' :: (nat, nat) NodePrivate)"
  have g: "GetRepHandlers ''/echo'' (repliers ?p) = []"
    by (simp add: GetRepHandlers_def learn_responders_def new_NodePrivate_def)
  have sel: "select_responder (discovery ?p ''/echo'') = Some responder_a"
    by (simp add: learn_responders_def select_responder_def identity_le_def
        responder_a_def responder_b_def)
  have addr: "reply_address responder_a = ''tcp://a:2''" by (simp add: responder_a_def)
  show ?thesis
    using g sel
      Request_without_local_replier [OF g, where req = 10 and cb = 7 and hUuid = "''r1''"
        and rep_new = 0 and result_new = False and n = "new_Node ''n1''"]
    by (simp add: addr)
qed

section \<open>The value a blocking request returns\<close>

text \<open>
  Claim C5. A blocking \<^verbatim>\<open>Request\<close> returns \<^verbatim>\<open>true\<close> exactly when a response became
  available in time. With a replier in the process the call runs the replier, whose
  response and result are in \<^verbatim>\<open>_rep\<close> and \<^verbatim>\<open>_result\<close>, and returns \<^verbatim>\<open>true\<close>.
  Otherwise the call stores a request handler under the id of the request, with the
  flag \<^verbatim>\<open>repAvailable\<close> of its completion slot unset, and the last thing it does is to
  wait on the condition of that request with the timeout it was given. The value it
  returns is the flag \<^verbatim>\<open>repAvailable\<close> of the stored handler at the end of the wait:
  \<^verbatim>\<open>true\<close> if and only if the receiving thread has set the flag during the wait; and
  when it is \<^verbatim>\<open>true\<close>, \<^verbatim>\<open>_result\<close> is the result flag of that slot and, if the result
  flag is set, \<^verbatim>\<open>_rep\<close> is parsed from its bytes.
\<close>

theorem blocking_Request_return_value:
  "case Request_blocking topic req timeout rep_in result_in hUuid woken parse n p of
     (ret, rep_out, result_out, p') \<Rightarrow>
       (GetRepHandlers topic (repliers p) \<noteq> [] \<longrightarrow>
          ret = True \<and>
          new_events p p' =
            [ReplierCalled (fst (hd (GetRepHandlers topic (repliers p)))) topic req] \<and>
          (rep_out, result_out) =
            rep_cb (snd (hd (GetRepHandlers topic (repliers p)))) topic req rep_in result_in) \<and>
       (GetRepHandlers topic (repliers p) = [] \<longrightarrow>
          (let stored = (new_ReqHandler (nUuidStr n) hUuid)\<lparr>reqMsg := Some req\<rparr>
           in \<not> repAvailable stored \<and>
              new_events p p' \<noteq> [] \<and>
              last (new_events p p') = WaitUntil hUuid timeout \<and>
              WaitUntil hUuid timeout \<notin> set (butlast (new_events p p')) \<and>
              (\<exists>h. map_of (GetReqHandlers topic (requests p')) hUuid = Some h \<and>
                   req_hUuid h = hUuid \<and> reqMsg h = Some req \<and>
                   repAvailable h = repAvailable (woken stored) \<and>
                   ret = repAvailable h \<and>
                   (ret \<longrightarrow> result_out = result h) \<and>
                   (ret \<and> result h \<longrightarrow> rep_out = parse (rep h) rep_in))))"
proof (cases "GetRepHandlers topic (repliers p)")
  case Nil
  let ?stored = "(new_ReqHandler (nUuidStr n) hUuid)\<lparr>reqMsg := Some req\<rparr>"
  let ?h = "?stored\<lparr>repAvailable := repAvailable (woken ?stored),
      result := result (woken ?stored), rep := rep (woken ?stored)\<rparr>"
  let ?p' = "snd (snd (snd
      (Request_blocking topic req timeout rep_in result_in hUuid woken parse n p)))"
  have unset: "\<not> repAvailable ?stored" by (simp add: new_ReqHandler_def)
  have entry: "map_of (GetReqHandlers topic (requests ?p')) hUuid = Some ?h"
    by (simp add: Request_blocking_stores [OF Nil] GetReqHandlers_AddReqHandler
        map_of_std_map_assign req_hUuid_new_ReqHandler)
  have events: "new_events p ?p' \<noteq> [] \<and> last (new_events p ?p') = WaitUntil hUuid timeout \<and>
      WaitUntil hUuid timeout \<notin> set (butlast (new_events p ?p'))"
  proof (cases "select_responder (discovery p topic)")
    case None
    then have "discovery p topic = []" by (simp add: select_responder_None)
    from Request_blocking_unknown_responder [OF Nil this] show ?thesis by simp
  next
    case (Some r)
    have "WaitUntil hUuid timeout \<notin> set (map
        (\<lambda>(hUuid, h). SendRequest topic (reply_address r) hUuid (reqMsg h)) m)" for m
      by (induction m) auto
    with Request_blocking_known_responder [OF Nil Some] show ?thesis by simp
  qed
  have ret: "fst (Request_blocking topic req timeout rep_in result_in hUuid woken parse n p) =
      repAvailable (woken ?stored)"
    by (simp add: Request_blocking_def Nil Let_def)
  have res: "fst (snd (snd
      (Request_blocking topic req timeout rep_in result_in hUuid woken parse n p))) =
      (if repAvailable (woken ?stored) then result (woken ?stored) else result_in)"
    by (simp add: Request_blocking_def Nil Let_def)
  have out: "fst (snd
      (Request_blocking topic req timeout rep_in result_in hUuid woken parse n p)) =
      (if repAvailable (woken ?stored) \<and> result (woken ?stored)
       then parse (rep (woken ?stored)) rep_in else rep_in)"
    by (simp add: Request_blocking_def Nil Let_def)
  obtain r_ret r_rep r_result p' where r:
    "Request_blocking topic req timeout rep_in result_in hUuid woken parse n p =
       (r_ret, r_rep, r_result, p')"
    by (cases "Request_blocking topic req timeout rep_in result_in hUuid woken parse n p")
  from entry r have entry': "map_of (GetReqHandlers topic (requests p')) hUuid = Some ?h"
    by simp
  from events r have events': "new_events p p' \<noteq> [] \<and>
      last (new_events p p') = WaitUntil hUuid timeout \<and>
      WaitUntil hUuid timeout \<notin> set (butlast (new_events p p'))"
    by simp
  from ret r have ret': "r_ret = repAvailable (woken ?stored)" by simp
  from res r ret' have res': "r_ret \<longrightarrow> r_result = result (woken ?stored)" by simp
  from out r ret' have out':
    "r_ret \<and> result (woken ?stored) \<longrightarrow> r_rep = parse (rep (woken ?stored)) rep_in"
    by simp
  have slot: "\<exists>h. map_of (GetReqHandlers topic (requests p')) hUuid = Some h \<and>
      req_hUuid h = hUuid \<and> reqMsg h = Some req \<and>
      repAvailable h = repAvailable (woken ?stored) \<and>
      r_ret = repAvailable h \<and>
      (r_ret \<longrightarrow> r_result = result h) \<and>
      (r_ret \<and> result h \<longrightarrow> r_rep = parse (rep h) rep_in)"
    using entry' ret' res' out'
    by (intro exI [of _ ?h]) (simp add: req_hUuid_new_ReqHandler)
  show ?thesis
    using unset events' slot by (simp add: r Nil Let_def)
next
  case (Cons e rest)
  obtain u h where e: "e = (u, h)" by (cases e)
  show ?thesis
    by (simp add: Request_blocking_def Cons e RunLocalCallback_def new_events_def
        split: prod.splits)
qed

theorem blocking_Request_return_value_witness:
  "GetRepHandlers ''/nonexistent''
     (repliers (new_NodePrivate ''tcp://a'' :: (nat, nat) NodePrivate)) = [] \<and>
   fst (Request_blocking ''/nonexistent'' 10 200 0 False ''r1'' no_response parse_length
          (new_Node ''n1'') (new_NodePrivate ''tcp://a'')) = False \<and>
   map_option repAvailable (map_of (GetReqHandlers ''/nonexistent'' (requests (snd (snd (snd
       (Request_blocking ''/nonexistent'' 10 200 0 False ''r1'' no_response parse_length
          (new_Node ''n1'') (new_NodePrivate ''tcp://a''))))))) ''r1'') = Some False \<and>
   fst (Request_blocking ''/nonexistent'' 10 200 0 False ''r1'' (response True ''abc'')
          parse_length (new_Node ''n1'') (new_NodePrivate ''tcp://a'')) = True \<and>
   map_option repAvailable (map_of (GetReqHandlers ''/nonexistent'' (requests (snd (snd (snd
       (Request_blocking ''/nonexistent'' 10 200 0 False ''r1'' (response True ''abc'')
          parse_length (new_Node ''n1'') (new_NodePrivate ''tcp://a''))))))) ''r1'') = Some True \<and>
   last (new_events (new_NodePrivate ''tcp://a'') (snd (snd (snd
       (Request_blocking ''/nonexistent'' 10 200 0 False ''r1'' (response True ''abc'')
          parse_length (new_Node ''n1'') (new_NodePrivate ''tcp://a'')))))) =
     WaitUntil ''r1'' 200 \<and>
   GetRepHandlers ''/echo'' (repliers (snd (Advertise_srv ''/echo'' echo Scope_All
       (new_Node ''n1'') (new_NodePrivate ''tcp://a'' :: (nat, nat) NodePrivate)))) \<noteq> [] \<and>
   fst (Request_blocking ''/echo'' 10 200 0 False ''r1'' no_response parse_length
          (new_Node ''n2'') (snd (Advertise_srv ''/echo'' echo Scope_All
             (new_Node ''n1'') (new_NodePrivate ''tcp://a'')))) = True"
proof -
  let ?p0 = "new_NodePrivate ''tcp://a'' :: (nat, nat) NodePrivate"
  let ?p1 = "snd (Advertise_srv ''/echo'' echo Scope_All (new_Node ''n1'') ?p0)"
  have g0: "GetRepHandlers ''/nonexistent'' (repliers ?p0) = []"
    by (simp add: GetRepHandlers_def new_NodePrivate_def)
  have g1: "GetRepHandlers ''/echo'' (repliers ?p1) \<noteq> []"
    by (simp add: Advertise_srv_def GetRepHandlers_def AddRepHandler_def new_Node_def
        new_NodePrivate_def Let_def)
  have f0: "\<not> repAvailable
      (no_response ((new_ReqHandler (nUuidStr (new_Node ''n1'')) ''r1'')\<lparr>reqMsg := Some 10\<rparr>))"
    by (simp add: no_response_def new_ReqHandler_def)
  have f1: "repAvailable (response True ''abc''
      ((new_ReqHandler (nUuidStr (new_Node ''n1'')) ''r1'')\<lparr>reqMsg := Some 10\<rparr>))"
    by (simp add: response_def)
  note timed_out = blocking_Request_return_value [where topic = "''/nonexistent''"
      and p = ?p0 and req = 10 and timeout = 200 and rep_in = 0 and result_in = False
      and hUuid = "''r1''" and woken = no_response and parse = parse_length
      and n = "new_Node ''n1''"]
  note answered = blocking_Request_return_value [where topic = "''/nonexistent''"
      and p = ?p0 and req = 10 and timeout = 200 and rep_in = 0 and result_in = False
      and hUuid = "''r1''" and woken = "response True ''abc''" and parse = parse_length
      and n = "new_Node ''n1''"]
  note local = blocking_Request_return_value [where topic = "''/echo''"
      and p = ?p1 and req = 10 and timeout = 200 and rep_in = 0 and result_in = False
      and hUuid = "''r1''" and woken = no_response and parse = parse_length
      and n = "new_Node ''n2''"]
  have a: "fst (Request_blocking ''/nonexistent'' 10 200 0 False ''r1'' no_response parse_length
          (new_Node ''n1'') ?p0) = False \<and>
     map_option repAvailable (map_of (GetReqHandlers ''/nonexistent'' (requests (snd (snd (snd
       (Request_blocking ''/nonexistent'' 10 200 0 False ''r1'' no_response parse_length
          (new_Node ''n1'') ?p0)))))) ''r1'') = Some False"
    using timed_out g0 f0 by (auto simp add: Let_def split: prod.splits)
  have b: "fst (Request_blocking ''/nonexistent'' 10 200 0 False ''r1'' (response True ''abc'')
          parse_length (new_Node ''n1'') ?p0) = True \<and>
     map_option repAvailable (map_of (GetReqHandlers ''/nonexistent'' (requests (snd (snd (snd
       (Request_blocking ''/nonexistent'' 10 200 0 False ''r1'' (response True ''abc'')
          parse_length (new_Node ''n1'') ?p0)))))) ''r1'') = Some True \<and>
     last (new_events ?p0 (snd (snd (snd
       (Request_blocking ''/nonexistent'' 10 200 0 False ''r1'' (response True ''abc'')
          parse_length (new_Node ''n1'') ?p0))))) = WaitUntil ''r1'' 200"
    using answered g0 f1 by (auto simp add: Let_def split: prod.splits)
  have c: "fst (Request_blocking ''/echo'' 10 200 0 False ''r1'' no_response parse_length
          (new_Node ''n2'') ?p1) = True"
    using local g1 by (auto split: prod.splits)
  show ?thesis using g0 g1 a b c by blast
qed

end
